theory Spec2Isabelle
  imports Complex_Main "HOL-Library.Word"
begin

section \<open>JavaScript strings\<close>

text \<open>
  A JavaScript string is a sequence of UTF-16 code units: \<open>length\<close> counts code units,
  \<open>slice\<close> cuts between them, and a regular expression without the \<open>u\<close> flag matches
  them one by one. \<open>js\<close> writes an ASCII literal as such a sequence.
\<close>

type_synonym jsstring = "16 word list"

definition js :: "string \<Rightarrow> jsstring" where
  "js s = map of_char s"

definition ESC :: "16 word" where
  "ESC = 0x1b"

definition BEL :: "16 word" where
  "BEL = 0x07"

text \<open>\<open>s.slice(-n)\<close> for a positive \<open>n\<close>: the trailing \<open>n\<close> code units, all of \<open>s\<close> when it is shorter.\<close>

definition slice_last :: "nat \<Rightarrow> jsstring \<Rightarrow> jsstring" where
  "slice_last n s = drop (length s - n) s"

section \<open>The regular expressions of the ANSI strip chain\<close>

text \<open>
  Every expression of the chain is a literal prefix, then (for the first three) a greedy
  starred character class followed by one character of a final class. A matcher takes the
  rest of the subject from some index on and returns the length of the match that starts
  at that index, if there is one.

  \<open>star_then C F\<close> is \<open>C*F\<close> with the backtracking of the language: where \<open>C\<close> accepts
  the next code unit the star takes it first, and only when no match follows does the star
  stop and \<open>F\<close> get tried on that code unit.
\<close>

fun literal :: "jsstring \<Rightarrow> jsstring \<Rightarrow> jsstring option" where
  "literal [] s = Some s"
| "literal (p # ps) [] = None"
| "literal (p # ps) (c # cs) = (if c = p then literal ps cs else None)"

fun star_then :: "(16 word \<Rightarrow> bool) \<Rightarrow> (16 word \<Rightarrow> bool) \<Rightarrow> jsstring \<Rightarrow> nat option" where
  "star_then C F [] = None"
| "star_then C F (c # cs) =
     (case (if C c then star_then C F cs else None) of
        Some n \<Rightarrow> Some (Suc n)
      | None \<Rightarrow> if F c then Some 1 else None)"

text \<open>The class \<open>[0-9;]\<close>.\<close>

definition is_param :: "16 word \<Rightarrow> bool" where
  "is_param c = ((0x30 \<le> c \<and> c \<le> 0x39) \<or> c = 0x3b)"

text \<open>The class \<open>[A-Za-z]\<close>.\<close>

definition is_alpha :: "16 word \<Rightarrow> bool" where
  "is_alpha c = ((0x41 \<le> c \<and> c \<le> 0x5a) \<or> (0x61 \<le> c \<and> c \<le> 0x7a))"

text \<open>\<open>/\x1b\[[0-9;]*[A-Za-z]/\<close>\<close>

definition re_csi :: "jsstring \<Rightarrow> nat option" where
  "re_csi s =
     (case literal [ESC, 0x5b] s of
        None \<Rightarrow> None
      | Some r \<Rightarrow> map_option (\<lambda>n. 2 + n) (star_then is_param is_alpha r))"

text \<open>\<open>/\x1b\[\?[0-9;]*[a-zA-Z]/\<close>\<close>

definition re_private :: "jsstring \<Rightarrow> nat option" where
  "re_private s =
     (case literal [ESC, 0x5b, 0x3f] s of
        None \<Rightarrow> None
      | Some r \<Rightarrow> map_option (\<lambda>n. 3 + n) (star_then is_param is_alpha r))"

text \<open>\<open>/\x1b\][^\x07]*\x07/\<close>\<close>

definition re_osc :: "jsstring \<Rightarrow> nat option" where
  "re_osc s =
     (case literal [ESC, 0x5d] s of
        None \<Rightarrow> None
      | Some r \<Rightarrow> map_option (\<lambda>n. 2 + n) (star_then (\<lambda>c. c \<noteq> BEL) (\<lambda>c. c = BEL) r))"

text \<open>\<open>/\x1b/\<close>\<close>

definition re_esc :: "jsstring \<Rightarrow> nat option" where
  "re_esc s = map_option (\<lambda>r. 1) (literal [ESC] s)"

text \<open>
  \<open>s.replace(re, '')\<close> for a global expression \<open>re\<close>: scan from the left; where \<open>re\<close>
  matches at the current index, drop the match and go on after it; where it does not
  (or matches the empty string), keep the code unit and go on at the next index.
\<close>

fun replace_empty :: "(jsstring \<Rightarrow> nat option) \<Rightarrow> jsstring \<Rightarrow> jsstring" where
  "replace_empty m [] = []"
| "replace_empty m (c # cs) =
     (case m (c # cs) of
        Some (Suc n) \<Rightarrow> replace_empty m (drop n cs)
      | _ \<Rightarrow> c # replace_empty m cs)"

text \<open>
  The chain applied to \<open>msg.data\<close> in the message handler (\<open>const clean = ...\<close>): the
  four replacements in the order of the source.
\<close>

definition clean :: "jsstring \<Rightarrow> jsstring" where
  "clean s = replace_empty re_esc (replace_empty re_osc (replace_empty re_private (replace_empty re_csi s)))"

section \<open>JavaScript values, truthiness and property reads\<close>

text \<open>
  A number is an IEEE double: not-a-number, an infinity, the negative zero, or a finite
  value (\<open>Num 0\<close> is the positive zero). The handlers never compute with numbers; they
  only test them for truthiness.
\<close>

datatype js_number = NaN | PosInfinity | NegInfinity | NegZero | Num real

text \<open>
  The values the handlers meet: the results of \<open>JSON.parse\<close>, the arguments of a tool call
  (JSON as well), and \<open>undefined\<close>. An object is the list of its own properties, each key
  once.
\<close>

datatype js_value =
    JUndefined
  | JNull
  | JBool bool
  | JNumber js_number
  | JString jsstring
  | JArray "js_value list"
  | JObject "(jsstring \<times> js_value) list"

text \<open>
  Thrown values. \<open>Error m\<close> is \<open>new Error(m)\<close>; the message of a built-in error is the
  engine's own and is left out.
\<close>

datatype js_error = Error jsstring | TypeError | SyntaxError | URIError

fun ToBoolean :: "js_value \<Rightarrow> bool" where
  "ToBoolean JUndefined = False"
| "ToBoolean JNull = False"
| "ToBoolean (JBool b) = b"
| "ToBoolean (JNumber n) = (n \<noteq> NaN \<and> n \<noteq> NegZero \<and> n \<noteq> Num 0)"
| "ToBoolean (JString s) = (s \<noteq> [])"
| "ToBoolean (JArray xs) = True"
| "ToBoolean (JObject kvs) = True"

text \<open>\<open>a || b\<close>\<close>

definition js_or :: "js_value \<Rightarrow> js_value \<Rightarrow> js_value" where
  "js_or a b = (if ToBoolean a then a else b)"

text \<open>
  \<open>v.k\<close> for a key \<open>k\<close> that no built-in prototype defines (\<open>type\<close>, \<open>data\<close>,
  \<open>project\<close>, \<open>command\<close>, \<open>waitMs\<close>: every key the handlers read): a TypeError on
  \<open>null\<close> and \<open>undefined\<close>, the own property of an object, \<open>undefined\<close> otherwise.
\<close>

fun get_prop :: "js_value \<Rightarrow> jsstring \<Rightarrow> js_error + js_value" where
  "get_prop JUndefined k = Inl TypeError"
| "get_prop JNull k = Inl TypeError"
| "get_prop (JObject kvs) k = Inr (case map_of kvs k of None \<Rightarrow> JUndefined | Some v \<Rightarrow> v)"
| "get_prop v k = Inr JUndefined"

text \<open>\<open>v?.k\<close>\<close>

fun get_prop_opt :: "js_value \<Rightarrow> jsstring \<Rightarrow> js_value" where
  "get_prop_opt (JObject kvs) k = (case map_of kvs k of None \<Rightarrow> JUndefined | Some v \<Rightarrow> v)"
| "get_prop_opt v k = JUndefined"

section \<open>The host: built-ins and configuration\<close>

text \<open>
  What the code takes from its environment: the built-ins \<open>JSON.parse\<close> and
  \<open>encodeURIComponent\<close> (each returns its value or the error it throws), the constructor
  of the \<open>ws\<close> socket (the error it throws on an address it refuses, if any), and the two
  constants read from the process environment.
\<close>

record host =
  JSON_parse :: "jsstring \<Rightarrow> js_error + js_value"
  encodeURIComponent :: "js_value \<Rightarrow> js_error + jsstring"
  WebSocket_new :: "jsstring \<Rightarrow> js_error option"
  CLAUDE_SERVER_WS :: jsstring
  DEFAULT_PROJECT :: js_value

text \<open>
  The two revisions of the server in the repository: \<open>src/index.js\<close> and the compact
  one (\<open>unnamed/part_000\<close>). They differ in message texts and in the logging calls of
  the compact revision.
\<close>

datatype revision = Index_js | Part_000

section \<open>Session state, promises and timers\<close>

datatype promise = Pending | Resolved | Rejected js_error

text \<open>
  The three module variables of the source, and what the run time holds for them: every
  socket constructed so far (its address, and the promise its handlers settle), the
  promise returned by every call of \<open>connectToServerClaude\<close>, the pending connect
  timers (due time in ms, promise to reject) and the clock. A socket is named by its
  index in \<open>sockets\<close>, a promise by its index in \<open>promises\<close>.
\<close>

record runtime =
  serverClaudeWs :: "nat option"
  serverClaudeBuffer :: jsstring
  serverClaudeConnected :: bool
  sockets :: "(jsstring \<times> nat) list"
  promises :: "promise list"
  timers :: "(nat \<times> nat) list"
  now :: nat

definition initial :: runtime where
  "initial = \<lparr>serverClaudeWs = None, serverClaudeBuffer = [], serverClaudeConnected = False,
     sockets = [], promises = [], timers = [], now = 0\<rparr>"

text \<open>\<open>resolve\<close> and \<open>reject\<close>: a promise settles once, later calls change nothing.\<close>

definition settle :: "nat \<Rightarrow> promise \<Rightarrow> promise list \<Rightarrow> promise list" where
  "settle p v ps = (if p < length ps \<and> ps ! p = Pending then ps[p := v] else ps)"

section \<open>The output buffer\<close>

text \<open>
  \<open>serverClaudeBuffer += clean; if (serverClaudeBuffer.length > 50000)
  serverClaudeBuffer = serverClaudeBuffer.slice(-30000);\<close>
\<close>

definition append_output :: "jsstring \<Rightarrow> jsstring \<Rightarrow> jsstring" where
  "append_output buffer chunk =
     (if length (buffer @ chunk) > 50000 then slice_last 30000 (buffer @ chunk) else buffer @ chunk)"

section \<open>The message handler\<close>

text \<open>
  The \<open>try\<close> block of the handler, on the text \<open>data.toString()\<close> of the message and the
  current buffer: the new buffer, or the error thrown. Nothing is assigned before the last
  point that can throw (\<open>msg.data.replace\<close>, a TypeError unless \<open>msg.data\<close> is a string).
\<close>

definition message_try :: "host \<Rightarrow> jsstring \<Rightarrow> jsstring \<Rightarrow> js_error + jsstring" where
  "message_try h data buffer =
     (case JSON_parse h data of
        Inl e \<Rightarrow> Inl e
      | Inr msg \<Rightarrow>
          (case get_prop msg (js ''type'') of
             Inl e \<Rightarrow> Inl e
           | Inr t \<Rightarrow>
               if t = JString (js ''output'') then
                 (case get_prop msg (js ''data'') of
                    Inl e \<Rightarrow> Inl e
                  | Inr (JString s) \<Rightarrow> Inr (append_output buffer (clean s))
                  | Inr _ \<Rightarrow> Inl TypeError)
               else Inr buffer))"

text \<open>
  The handler: the \<open>try\<close> block, and the \<open>catch\<close> block, which appends the text of the
  message as it is. The result is the new state, or the error that leaves the handler.
\<close>

definition messageHandler :: "host \<Rightarrow> jsstring \<Rightarrow> runtime \<Rightarrow> js_error + runtime" where
  "messageHandler h data rt =
     (case message_try h data (serverClaudeBuffer rt) of
        Inr b \<Rightarrow> Inr (rt\<lparr>serverClaudeBuffer := b\<rparr>)
      | Inl e \<Rightarrow> Inr (rt\<lparr>serverClaudeBuffer := serverClaudeBuffer rt @ data\<rparr>))"

section \<open>Connecting\<close>

definition timeout_message :: "revision \<Rightarrow> jsstring" where
  "timeout_message rv = (case rv of Index_js \<Rightarrow> js ''Connection timeout'' | Part_000 \<Rightarrow> js ''Timeout'')"

text \<open>
  \<open>connectToServerClaude(projectPath = DEFAULT_PROJECT)\<close>, up to its return: the executor
  of the promise runs at once. The promise returned is the last of \<open>promises\<close>. An error
  thrown in the executor (by \<open>encodeURIComponent\<close> or by the constructor) rejects the
  promise, and the assignments after it do not happen.
\<close>

definition connectToServerClaude :: "host \<Rightarrow> js_value \<Rightarrow> runtime \<Rightarrow> runtime" where
  "connectToServerClaude h projectPath rt =
     (if serverClaudeWs rt \<noteq> None \<and> serverClaudeConnected rt
      then rt\<lparr>promises := promises rt @ [Resolved]\<rparr>
      else
        (case encodeURIComponent h (case projectPath of JUndefined \<Rightarrow> DEFAULT_PROJECT h | _ \<Rightarrow> projectPath) of
           Inl e \<Rightarrow> rt\<lparr>promises := promises rt @ [Rejected e]\<rparr>
         | Inr path \<Rightarrow>
             (case WebSocket_new h (CLAUDE_SERVER_WS h @ js ''?path='' @ path @ js ''&mode=claude'') of
                Some e \<Rightarrow> rt\<lparr>promises := promises rt @ [Rejected e]\<rparr>
              | None \<Rightarrow>
                  rt\<lparr>serverClaudeWs := Some (length (sockets rt)),
                     serverClaudeBuffer := [],
                     sockets := sockets rt @
                       [(CLAUDE_SERVER_WS h @ js ''?path='' @ path @ js ''&mode=claude'', length (promises rt))],
                     promises := promises rt @ [Pending],
                     timers := timers rt @ [(now rt + 10000, length (promises rt))]\<rparr>)))"

text \<open>
  The tool \<open>server_claude_connect\<close>, up to its \<open>await\<close>:
  \<open>connectToServerClaude(args?.project || DEFAULT_PROJECT)\<close>.
\<close>

definition server_claude_connect :: "host \<Rightarrow> js_value \<Rightarrow> runtime \<Rightarrow> runtime" where
  "server_claude_connect h args rt =
     connectToServerClaude h (js_or (get_prop_opt args (js ''project'')) (DEFAULT_PROJECT h)) rt"

section \<open>Socket events and the connect timer\<close>

text \<open>
  The events of a socket that the code listens to: \<open>open\<close>, \<open>message\<close> (with the text
  \<open>data.toString()\<close> of the message), \<open>error\<close> (here \<open>Failure\<close>, with the error passed
  to the listener) and \<open>close\<close>.
\<close>

datatype ws_event = Open | Message jsstring | Failure js_error | Close

text \<open>
  The listeners, as registered by the call that constructed the socket; \<open>p\<close> is the promise
  of that call, whose \<open>resolve\<close> and \<open>reject\<close> they hold.
\<close>

definition on_open :: "nat \<Rightarrow> runtime \<Rightarrow> runtime" where
  "on_open p rt = rt\<lparr>serverClaudeConnected := True, promises := settle p Resolved (promises rt)\<rparr>"

definition on_error :: "nat \<Rightarrow> js_error \<Rightarrow> runtime \<Rightarrow> runtime" where
  "on_error p err rt = rt\<lparr>serverClaudeConnected := False, promises := settle p (Rejected err) (promises rt)\<rparr>"

definition on_close :: "runtime \<Rightarrow> runtime" where
  "on_close rt = rt\<lparr>serverClaudeConnected := False, serverClaudeWs := None\<rparr>"

text \<open>
  \<open>setTimeout(() => { if (!serverClaudeConnected) reject(new Error(...)); }, 10000)\<close>,
  when it fires.
\<close>

definition on_timeout :: "revision \<Rightarrow> nat \<Rightarrow> runtime \<Rightarrow> runtime" where
  "on_timeout rv p rt =
     (if \<not> serverClaudeConnected rt
      then rt\<lparr>promises := settle p (Rejected (Error (timeout_message rv))) (promises rt)\<rparr>
      else rt)"

text \<open>Socket \<open>k\<close> emits an event. A socket that was never constructed emits nothing.\<close>

definition socket_event :: "host \<Rightarrow> nat \<Rightarrow> ws_event \<Rightarrow> runtime \<Rightarrow> runtime" where
  "socket_event h k ev rt =
     (if k < length (sockets rt) then
        (case ev of
           Open \<Rightarrow> on_open (snd (sockets rt ! k)) rt
         | Message data \<Rightarrow> (case messageHandler h data rt of Inr rt' \<Rightarrow> rt' | Inl e \<Rightarrow> rt)
         | Failure err \<Rightarrow> on_error (snd (sockets rt ! k)) err rt
         | Close \<Rightarrow> on_close rt)
      else rt)"

section \<open>The event loop\<close>

text \<open>
  The clock moves to \<open>t\<close>: the timers due by then fire, in the order they were set, and
  leave the list.
\<close>

definition advance :: "revision \<Rightarrow> nat \<Rightarrow> runtime \<Rightarrow> runtime" where
  "advance rv t rt =
     foldl (\<lambda>r dp. on_timeout rv (snd dp) r)
       (rt\<lparr>timers := filter (\<lambda>dp. \<not> fst dp \<le> t) (timers rt), now := max (now rt) t\<rparr>)
       (filter (\<lambda>dp. fst dp \<le> t) (timers rt))"

text \<open>What happens at a moment: a call of \<open>connectToServerClaude\<close>, or an event of a socket.\<close>

datatype action = Call js_value | Socket nat ws_event

definition step :: "revision \<Rightarrow> host \<Rightarrow> runtime \<Rightarrow> nat \<times> action \<Rightarrow> runtime" where
  "step rv h rt ta =
     (case snd ta of
        Call projectPath \<Rightarrow> connectToServerClaude h projectPath (advance rv (fst ta) rt)
      | Socket k ev \<Rightarrow> socket_event h k ev (advance rv (fst ta) rt))"

definition run :: "revision \<Rightarrow> host \<Rightarrow> (nat \<times> action) list \<Rightarrow> runtime \<Rightarrow> runtime" where
  "run rv h tas rt = foldl (step rv h) rt tas"

text \<open>
  A socket is live from its \<open>open\<close> event to its \<open>close\<close> event: after a trace, socket
  \<open>k\<close> is live when the last of its \<open>open\<close> and \<open>close\<close> events is an \<open>open\<close>.
\<close>

definition live :: "(nat \<times> action) list \<Rightarrow> nat \<Rightarrow> bool" where
  "live tas k =
     (case filter (\<lambda>a. a = Socket k Open \<or> a = Socket k Close) (map snd tas) of
        [] \<Rightarrow> False
      | a # as \<Rightarrow> last (a # as) = Socket k Open)"

section \<open>Well-formed states\<close>

text \<open>
  In every state the code can reach, the handlers of a socket and the timers name promises
  that exist.
\<close>

definition consistent :: "runtime \<Rightarrow> bool" where
  "consistent rt \<longleftrightarrow>
     (\<forall>s \<in> set (sockets rt). snd s < length (promises rt)) \<and>
     (\<forall>dq \<in> set (timers rt). snd dq < length (promises rt))"

text \<open>
  A connect attempt that is still open: socket \<open>k\<close> is the only socket whose handlers
  settle promise \<open>p\<close>, the promise is pending, and its timer, due at \<open>due\<close>, is set.
\<close>

definition pending_attempt :: "nat \<Rightarrow> nat \<Rightarrow> nat \<Rightarrow> runtime \<Rightarrow> bool" where
  "pending_attempt k p due rt \<longleftrightarrow>
     consistent rt \<and> k < length (sockets rt) \<and> snd (sockets rt ! k) = p \<and>
     (\<forall>j < length (sockets rt). snd (sockets rt ! j) = p \<longrightarrow> j = k) \<and>
     p < length (promises rt) \<and> promises rt ! p = Pending \<and>
     (due, p) \<in> set (timers rt) \<and> (\<forall>dq \<in> set (timers rt). snd dq = p \<longrightarrow> fst dq = due)"

section \<open>The tool \<open>server_claude_send\<close>\<close>

text \<open>\<open>const wait = waitMs || 5000\<close> (\<open>args.waitMs || 5000\<close> in the compact revision).\<close>

definition server_claude_send_wait :: "js_value \<Rightarrow> js_error + js_value" where
  "server_claude_send_wait args =
     (case get_prop args (js ''waitMs'') of
        Inl e \<Rightarrow> Inl e
      | Inr waitMs \<Rightarrow> Inr (js_or waitMs (JNumber (Num 5000))))"

definition no_output_text :: "revision \<Rightarrow> jsstring" where
  "no_output_text rv =
     (case rv of
        Index_js \<Rightarrow> js ''(no output yet - server Claude may still be processing)''
      | Part_000 \<Rightarrow> js ''(no output)'')"

text \<open>
  Whether the conversion of a JSON value to a string throws. An object converts through
  \<open>Object.prototype.toString\<close> unless it has an own property \<open>toString\<close>, which in JSON is
  never callable: then no method yields a primitive and the conversion is a TypeError. An
  array converts through \<open>join\<close>, which converts every element but \<open>null\<close>.
\<close>

fun to_string_throws :: "js_value \<Rightarrow> bool" where
  "to_string_throws (JObject kvs) = (map_of kvs (js ''toString'') \<noteq> None)"
| "to_string_throws (JArray xs) = (\<exists>x \<in> set xs. x \<noteq> JNull \<and> x \<noteq> JUndefined \<and> to_string_throws x)"
| "to_string_throws v = False"

text \<open>
  From the end of the wait to the return: the text of the result, or the error thrown
  (which the dispatcher turns into an error result). The compact revision first evaluates
  \<open>`Sent: ${args.command.slice(0, 80)}...`\<close> for its log line: a TypeError unless
  \<open>command\<close> is a string or an array, and for an array the conversion of its first 80
  elements to a string.
\<close>

definition server_claude_send_return :: "revision \<Rightarrow> js_value \<Rightarrow> runtime \<Rightarrow> js_error + js_value" where
  "server_claude_send_return rv args rt =
     (case rv of
        Index_js \<Rightarrow> Inr (js_or (JString (serverClaudeBuffer rt)) (JString (no_output_text rv)))
      | Part_000 \<Rightarrow>
          (case get_prop args (js ''command'') of
             Inl e \<Rightarrow> Inl e
           | Inr (JString c) \<Rightarrow> Inr (js_or (JString (serverClaudeBuffer rt)) (JString (no_output_text rv)))
           | Inr (JArray c) \<Rightarrow>
               if to_string_throws (JArray (take 80 c)) then Inl TypeError
               else Inr (js_or (JString (serverClaudeBuffer rt)) (JString (no_output_text rv)))
           | Inr _ \<Rightarrow> Inl TypeError))"

section \<open>A host for the examples\<close>

text \<open>
  The concrete examples below need the built-ins at a few inputs. \<open>example_host\<close>
  tabulates them there: \<open>JSON.parse\<close> on three JSON texts (every other text the examples
  pass to it is not JSON, and is refused with a SyntaxError as the built-in does) and
  \<open>encodeURIComponent\<close> on two paths. The constructor accepts every address.
\<close>

definition example_host :: host where
  \<open>example_host =
     \<lparr>JSON_parse = (\<lambda>s.
        if s = js ''null'' then Inr JNull
        else if s = js ''{"type":"resize","cols":80}'' then
          Inr (JObject [(js ''type'', JString (js ''resize'')), (js ''cols'', JNumber (Num 80))])
        else if s = js ''{"type":"output","data":"ok"}'' then
          Inr (JObject [(js ''type'', JString (js ''output'')), (js ''data'', JString (js ''ok''))])
        else Inl SyntaxError),
      encodeURIComponent = (\<lambda>v.
        if v = JString (js ''/srv/app'') then Inr (js ''%2Fsrv%2Fapp'')
        else if v = JString (js ''/srv/other'') then Inr (js ''%2Fsrv%2Fother'')
        else Inl URIError),
      WebSocket_new = (\<lambda>url. None),
      CLAUDE_SERVER_WS = js ''ws://161.35.229.220:5400'',
      DEFAULT_PROJECT = JString (js ''/srv/app'')\<rparr>\<close>

section \<open>Properties of the strip chain\<close>

lemma literal_ESC_absent: "ESC \<notin> set s \<Longrightarrow> literal (ESC # ps) s = None"
  by (cases s) auto

lemma re_csi_ESC_absent: "ESC \<notin> set s \<Longrightarrow> re_csi s = None"
  by (simp add: re_csi_def literal_ESC_absent)

lemma re_private_ESC_absent: "ESC \<notin> set s \<Longrightarrow> re_private s = None"
  by (simp add: re_private_def literal_ESC_absent)

lemma re_osc_ESC_absent: "ESC \<notin> set s \<Longrightarrow> re_osc s = None"
  by (simp add: re_osc_def literal_ESC_absent)

lemma re_esc_ESC_absent: "ESC \<notin> set s \<Longrightarrow> re_esc s = None"
  by (simp add: re_esc_def literal_ESC_absent)

lemma replace_empty_no_match:
  assumes "\<And>t. ESC \<notin> set t \<Longrightarrow> m t = None"
  shows "ESC \<notin> set s \<Longrightarrow> replace_empty m s = s"
proof (induction s)
  case Nil
  show ?case by simp
next
  case (Cons c cs)
  from Cons.prems have "m (c # cs) = None" by (rule assms)
  moreover from Cons have "replace_empty m cs = cs" by simp
  ultimately show ?case by simp
qed

lemma re_esc_Cons: "re_esc (c # cs) = (if c = ESC then Some 1 else None)"
  by (simp add: re_esc_def)

lemma replace_empty_re_esc: "replace_empty re_esc s = filter (\<lambda>c. c \<noteq> ESC) s"
  by (induction s) (simp_all add: re_esc_Cons)

lemma clean_ESC_free: "ESC \<notin> set (clean s)"
  by (simp add: clean_def replace_empty_re_esc)

lemma clean_fixed: "ESC \<notin> set s \<Longrightarrow> clean s = s"
  by (simp add: clean_def replace_empty_no_match
      re_csi_ESC_absent re_private_ESC_absent re_osc_ESC_absent re_esc_ESC_absent)

text \<open>
  C3. The strip chain is idempotent: \<open>clean (clean s) = clean s\<close> for every string \<open>s\<close>,
  and in the output of one pass none of the four expressions matches at any index.
\<close>

theorem clean_idempotent:
  "clean (clean s) = clean s \<and>
   (\<forall>i. re_csi (drop i (clean s)) = None \<and> re_private (drop i (clean s)) = None \<and>
        re_osc (drop i (clean s)) = None \<and> re_esc (drop i (clean s)) = None)"
proof -
  have free: "ESC \<notin> set (drop i (clean s))" for i
    using clean_ESC_free [of s] by (auto dest: in_set_dropD)
  have "clean (clean s) = clean s"
    by (rule clean_fixed) (rule clean_ESC_free)
  then show ?thesis
    by (simp add: free re_csi_ESC_absent re_private_ESC_absent re_osc_ESC_absent re_esc_ESC_absent)
qed

section \<open>Properties of the output buffer\<close>

lemma length_slice_last: "length (slice_last n s) = min n (length s)"
  by (simp add: slice_last_def)

lemma slice_last_length_suffix: "slice_last (length x) (p @ x) = x"
  by (simp add: slice_last_def)

lemma length_append_output_le: "length (append_output b c) \<le> 50000"
  by (simp add: append_output_def length_slice_last)

lemma append_output_exceed:
  "50000 < length (b @ c) \<Longrightarrow> append_output b c = slice_last 30000 (b @ c)"
  by (simp add: append_output_def)

lemma append_output_suffix: "\<exists>p. b @ c = p @ append_output b c"
proof (cases "50000 < length (b @ c)")
  case True
  then have "b @ c = take (length (b @ c) - 30000) (b @ c) @ append_output b c"
    by (simp only: append_output_exceed slice_last_def append_take_drop_id)
  then show ?thesis ..
next
  case False
  then have "b @ c = [] @ append_output b c" by (simp add: append_output_def)
  then show ?thesis ..
qed

text \<open>The buffer is always a trailing part of everything appended so far.\<close>

lemma foldl_append_output_suffix:
  "\<exists>p. sofar = p @ buf \<Longrightarrow> \<exists>p. sofar @ concat chunks = p @ foldl append_output buf chunks"
proof (induction chunks arbitrary: buf sofar)
  case Nil
  then show ?case by simp
next
  case (Cons c cs)
  from Cons.prems obtain p where p: "sofar = p @ buf" ..
  obtain q where q: "buf @ c = q @ append_output buf c"
    using append_output_suffix by blast
  have "sofar @ c = (p @ q) @ append_output buf c"
    using p q by simp
  then have "\<exists>r. sofar @ c = r @ append_output buf c" ..
  then have "\<exists>r. (sofar @ c) @ concat cs = r @ foldl append_output (append_output buf c) cs"
    by (rule Cons.IH)
  then show ?case by simp
qed

text \<open>
  Either nothing was cut yet and the buffer is everything appended, or a cut has happened
  and the buffer holds between 30000 and 50000 code units.
\<close>

lemma foldl_append_output_length:
  "(buf = sofar \<and> length sofar \<le> 50000) \<or>
     (30000 \<le> length buf \<and> length buf \<le> 50000 \<and> 50000 < length sofar) \<Longrightarrow>
   (foldl append_output buf chunks = sofar @ concat chunks \<and> length (sofar @ concat chunks) \<le> 50000) \<or>
     (30000 \<le> length (foldl append_output buf chunks) \<and>
      length (foldl append_output buf chunks) \<le> 50000 \<and> 50000 < length (sofar @ concat chunks))"
proof (induction chunks arbitrary: buf sofar)
  case Nil
  then show ?case by simp
next
  case (Cons c cs)
  from Cons.prems consider
      (uncut) "buf = sofar" "length sofar \<le> 50000"
    | (cut) "30000 \<le> length buf" "length buf \<le> 50000" "50000 < length sofar"
    by auto
  then have "(append_output buf c = sofar @ c \<and> length (sofar @ c) \<le> 50000) \<or>
      (30000 \<le> length (append_output buf c) \<and> length (append_output buf c) \<le> 50000 \<and>
       50000 < length (sofar @ c))"
  proof cases
    case uncut
    then show ?thesis by (simp add: append_output_def length_slice_last)
  next
    case cut
    then show ?thesis by (simp add: append_output_def length_slice_last)
  qed
  then have "(foldl append_output (append_output buf c) cs = (sofar @ c) @ concat cs \<and>
        length ((sofar @ c) @ concat cs) \<le> 50000) \<or>
      (30000 \<le> length (foldl append_output (append_output buf c) cs) \<and>
       length (foldl append_output (append_output buf c) cs) \<le> 50000 \<and>
       50000 < length ((sofar @ c) @ concat cs))"
    by (rule Cons.IH)
  then show ?case by simp
qed

text \<open>
  C2, as stated, fails: after a chunk of 50001 code units and a second chunk of one, the
  buffer holds 30001 code units, not the trailing 30000 of the concatenation.
\<close>

theorem append_output_trailing_counterexample:
  "50000 < length (concat [replicate 50001 (0x61::16 word), [0x62]]) \<and>
   foldl append_output [] [replicate 50001 (0x61::16 word), [0x62]] \<noteq>
     slice_last 30000 (concat [replicate 50001 0x61, [0x62]])"
proof -
  have "length (foldl append_output [] [replicate 50001 (0x61::16 word), [0x62]]) = 30001"
    by (simp add: append_output_def length_slice_last)
  moreover have "length (slice_last 30000 (concat [replicate 50001 (0x61::16 word), [0x62]])) = 30000"
    by (simp add: length_slice_last)
  ultimately have "foldl append_output [] [replicate 50001 (0x61::16 word), [0x62]] \<noteq>
      slice_last 30000 (concat [replicate 50001 0x61, [0x62]])"
    by auto
  then show ?thesis by simp
qed

text \<open>
  C2, amended. For every sequence of chunks appended to the empty buffer whose total
  length exceeds 50000, the buffer afterwards holds at most 50000 and at least 30000 code
  units, and its contents are exactly the trailing code units, that many, of the
  concatenation of all the chunks.
\<close>

theorem append_output_trailing:
  assumes "50000 < length (concat chunks)"
  shows "length (foldl append_output [] chunks) \<le> 50000 \<and>
         30000 \<le> length (foldl append_output [] chunks) \<and>
         foldl append_output [] chunks =
           slice_last (length (foldl append_output [] chunks)) (concat chunks)"
proof -
  have "\<exists>p. ([]::jsstring) = p @ []" by simp
  then have "\<exists>p. [] @ concat chunks = p @ foldl append_output [] chunks"
    by (rule foldl_append_output_suffix)
  then obtain p where "concat chunks = p @ foldl append_output [] chunks" by auto
  then have "slice_last (length (foldl append_output [] chunks)) (concat chunks) =
      foldl append_output [] chunks"
    by (metis slice_last_length_suffix)
  moreover have "(foldl append_output [] chunks = [] @ concat chunks \<and>
        length ([] @ concat chunks) \<le> 50000) \<or>
      (30000 \<le> length (foldl append_output [] chunks) \<and>
       length (foldl append_output [] chunks) \<le> 50000 \<and> 50000 < length ([] @ concat chunks))"
    by (rule foldl_append_output_length) simp
  with assms have "30000 \<le> length (foldl append_output [] chunks) \<and>
      length (foldl append_output [] chunks) \<le> 50000"
    by auto
  ultimately show ?thesis by simp
qed

theorem append_output_trailing_witness:
  "50000 < length (concat [replicate 50001 (0x61::16 word), [0x62]]) \<and>
   length (foldl append_output [] [replicate 50001 (0x61::16 word), [0x62]]) \<le> 50000 \<and>
   30000 \<le> length (foldl append_output [] [replicate 50001 (0x61::16 word), [0x62]]) \<and>
   foldl append_output [] [replicate 50001 (0x61::16 word), [0x62]] =
     slice_last (length (foldl append_output [] [replicate 50001 (0x61::16 word), [0x62]]))
       (concat [replicate 50001 0x61, [0x62]])"
proof -
  have h: "50000 < length (concat [replicate 50001 (0x61::16 word), [0x62]])" by simp
  from h append_output_trailing [OF h] show ?thesis by blast
qed

section \<open>Concrete runs\<close>

text \<open>The definitions a concrete run unfolds to, and two states the examples start from.\<close>

lemmas eval_defs = run_def step_def advance_def socket_event_def on_open_def on_error_def on_close_def
  on_timeout_def connectToServerClaude_def messageHandler_def message_try_def settle_def
  example_host_def initial_def js_def timeout_message_def append_output_def

lemmas clean_defs = clean_def re_csi_def re_private_def re_osc_def re_esc_def ESC_def BEL_def

lemma run_snoc: "run rv h (tas @ [ta]) rt = step rv h (run rv h tas rt) ta"
  by (simp add: run_def)

text \<open>A connect call, and its socket opens 40 ms later.\<close>

lemma example_connected:
  "run Index_js example_host [(0, Call (JString (js ''/srv/app''))), (40, Socket 0 Open)] initial =
     \<lparr>serverClaudeWs = Some 0, serverClaudeBuffer = [], serverClaudeConnected = True,
      sockets = [(js ''ws://161.35.229.220:5400?path=%2Fsrv%2Fapp&mode=claude'', 0)],
      promises = [Resolved], timers = [(10000, 0)], now = 40\<rparr>"
  by (simp add: eval_defs)

text \<open>Then the server sends one \<open>output\<close> frame.\<close>

lemma example_output:
  \<open>run Index_js example_host
     [(0, Call (JString (js ''/srv/app''))), (40, Socket 0 Open),
      (50, Socket 0 (Message (js ''{"type":"output","data":"ok"}'')))] initial =
     \<lparr>serverClaudeWs = Some 0, serverClaudeBuffer = js ''ok'', serverClaudeConnected = True,
      sockets = [(js ''ws://161.35.229.220:5400?path=%2Fsrv%2Fapp&mode=claude'', 0)],
      promises = [Resolved], timers = [(10000, 0)], now = 50\<rparr>\<close>
  by (simp add: eval_defs clean_defs)

section \<open>Properties of the message handler\<close>

lemma example_parse_long: "30 < length s \<Longrightarrow> JSON_parse example_host s = Inl SyntaxError"
  by (auto simp: example_host_def js_def)

lemma messageHandler_catch:
  "message_try h data (serverClaudeBuffer rt) = Inl e \<Longrightarrow>
   messageHandler h data rt = Inr (rt\<lparr>serverClaudeBuffer := serverClaudeBuffer rt @ data\<rparr>)"
  by (simp add: messageHandler_def)

text \<open>No error leaves the handler, whatever the message.\<close>

lemma messageHandler_total: "\<exists>rt'. messageHandler h data rt = Inr rt'"
  by (simp add: messageHandler_def split: sum.splits)

text \<open>
  The \<open>output\<close> branch keeps the bound: whatever the buffer held before, after an
  \<open>output\<close> message with a string payload it holds at most 50000 code units.
\<close>

lemma messageHandler_output:
  assumes "JSON_parse h data = Inr msg"
    and "get_prop msg (js ''type'') = Inr (JString (js ''output''))"
    and "get_prop msg (js ''data'') = Inr (JString s)"
  shows "messageHandler h data rt =
           Inr (rt\<lparr>serverClaudeBuffer := append_output (serverClaudeBuffer rt) (clean s)\<rparr>)"
  using assms by (simp add: messageHandler_def message_try_def)

lemma messageHandler_output_bounded:
  assumes "JSON_parse h data = Inr msg"
    and "get_prop msg (js ''type'') = Inr (JString (js ''output''))"
    and "get_prop msg (js ''data'') = Inr (JString s)"
    and "messageHandler h data rt = Inr rt'"
  shows "length (serverClaudeBuffer rt') \<le> 50000"
  using assms messageHandler_output [OF assms(1-3), of rt]
  by (auto simp: length_append_output_le)

text \<open>
  C1: the bound is broken on the raw branch. On an open connection with an empty buffer,
  one inbound message of 50001 letters \<open>x\<close> (not JSON) leaves 50001 code units in the
  buffer: the \<open>catch\<close> block appends and never cuts.
\<close>

theorem messageHandler_raw_unbounded:
  "serverClaudeBuffer (run Index_js example_host
     [(0, Call (JString (js ''/srv/app''))), (40, Socket 0 Open),
      (50, Socket 0 (Message (replicate 50001 0x78)))] initial) = replicate 50001 0x78 \<and>
   50000 < length (serverClaudeBuffer (run Index_js example_host
     [(0, Call (JString (js ''/srv/app''))), (40, Socket 0 Open),
      (50, Socket 0 (Message (replicate 50001 0x78)))] initial))"
proof -
  have p: "JSON_parse example_host (replicate 50001 0x78) = Inl SyntaxError"
    by (rule example_parse_long) simp
  have "run Index_js example_host
     ([(0, Call (JString (js ''/srv/app''))), (40, Socket 0 Open)] @
      [(50, Socket 0 (Message (replicate 50001 0x78)))]) initial =
    step Index_js example_host
      (run Index_js example_host [(0, Call (JString (js ''/srv/app''))), (40, Socket 0 Open)] initial)
      (50, Socket 0 (Message (replicate 50001 0x78)))"
    by (rule run_snoc)
  then have "serverClaudeBuffer (run Index_js example_host
     [(0, Call (JString (js ''/srv/app''))), (40, Socket 0 Open),
      (50, Socket 0 (Message (replicate 50001 0x78)))] initial) = replicate 50001 0x78"
    by (simp add: example_connected step_def advance_def socket_event_def on_timeout_def
        messageHandler_def message_try_def p)
  then show ?thesis by simp
qed

text \<open>
  C4. For every inbound message that \<open>JSON.parse\<close> refuses, the handler appends the text
  of the message to the buffer as it is, changes nothing else, and returns without an
  error.
\<close>

theorem messageHandler_raw:
  assumes "JSON_parse h data = Inl e"
  shows "messageHandler h data rt = Inr (rt\<lparr>serverClaudeBuffer := serverClaudeBuffer rt @ data\<rparr>)"
proof -
  from assms have "message_try h data (serverClaudeBuffer rt) = Inl e"
    by (simp add: message_try_def)
  then show ?thesis by (rule messageHandler_catch)
qed

theorem messageHandler_raw_witness:
  \<open>JSON_parse example_host (ESC # js ''[0m$ ls'') = Inl SyntaxError \<and>
   messageHandler example_host (ESC # js ''[0m$ ls'')
     (run Index_js example_host
       [(0, Call (JString (js ''/srv/app''))), (40, Socket 0 Open),
        (50, Socket 0 (Message (js ''{"type":"output","data":"ok"}'')))] initial) =
     Inr \<lparr>serverClaudeWs = Some 0, serverClaudeBuffer = js ''ok'' @ ESC # js ''[0m$ ls'',
          serverClaudeConnected = True,
          sockets = [(js ''ws://161.35.229.220:5400?path=%2Fsrv%2Fapp&mode=claude'', 0)],
          promises = [Resolved], timers = [(10000, 0)], now = 50\<rparr>\<close>
proof -
  have p: "JSON_parse example_host (ESC # js ''[0m$ ls'') = Inl SyntaxError"
    by (simp add: example_host_def js_def ESC_def)
  from p messageHandler_raw [OF p] show ?thesis
    by (simp add: example_output)
qed

text \<open>
  C9, as stated, fails: the message \<open>null\<close> parses as JSON and has no \<open>type\<close> that is
  \<open>"output"\<close>, but reading \<open>msg.type\<close> throws, the \<open>catch\<close> block runs, and the text
  \<open>null\<close> is appended to the buffer.
\<close>

theorem messageHandler_null_counterexample:
  "JSON_parse example_host (js ''null'') = Inr JNull \<and>
   get_prop JNull (js ''type'') \<noteq> Inr (JString (js ''output'')) \<and>
   serverClaudeBuffer (run Index_js example_host
     [(0, Call (JString (js ''/srv/app''))), (40, Socket 0 Open)] initial) = [] \<and>
   serverClaudeBuffer (run Index_js example_host
     [(0, Call (JString (js ''/srv/app''))), (40, Socket 0 Open),
      (50, Socket 0 (Message (js ''null'')))] initial) = js ''null''"
  by (simp add: eval_defs)

text \<open>
  C9, amended. For every inbound message that parses as JSON to a value other than
  \<open>null\<close> (so that \<open>msg.type\<close> can be read) and whose \<open>type\<close> is not the string
  \<open>"output"\<close>, the handler leaves the state, the buffer with it, unchanged and returns
  without an error.
\<close>

theorem messageHandler_other_type:
  assumes "JSON_parse h data = Inr msg"
    and "get_prop msg (js ''type'') = Inr t"
    and "t \<noteq> JString (js ''output'')"
  shows "messageHandler h data rt = Inr rt"
  using assms by (simp add: messageHandler_def message_try_def)

theorem messageHandler_other_type_witness:
  \<open>JSON_parse example_host (js ''{"type":"resize","cols":80}'') =
     Inr (JObject [(js ''type'', JString (js ''resize'')), (js ''cols'', JNumber (Num 80))]) \<and>
   get_prop (JObject [(js ''type'', JString (js ''resize'')), (js ''cols'', JNumber (Num 80))]) (js ''type'') =
     Inr (JString (js ''resize'')) \<and>
   JString (js ''resize'') \<noteq> JString (js ''output'') \<and>
   serverClaudeBuffer (run Index_js example_host
       [(0, Call (JString (js ''/srv/app''))), (40, Socket 0 Open),
        (50, Socket 0 (Message (js ''{"type":"output","data":"ok"}'')))] initial) = js ''ok'' \<and>
   messageHandler example_host (js ''{"type":"resize","cols":80}'')
     (run Index_js example_host
       [(0, Call (JString (js ''/srv/app''))), (40, Socket 0 Open),
        (50, Socket 0 (Message (js ''{"type":"output","data":"ok"}'')))] initial) =
     Inr (run Index_js example_host
       [(0, Call (JString (js ''/srv/app''))), (40, Socket 0 Open),
        (50, Socket 0 (Message (js ''{"type":"output","data":"ok"}'')))] initial)\<close>
proof -
  have a: \<open>JSON_parse example_host (js ''{"type":"resize","cols":80}'') =
     Inr (JObject [(js ''type'', JString (js ''resize'')), (js ''cols'', JNumber (Num 80))])\<close>
    by (simp add: example_host_def js_def)
  have b: "get_prop (JObject [(js ''type'', JString (js ''resize'')), (js ''cols'', JNumber (Num 80))]) (js ''type'') =
     Inr (JString (js ''resize''))"
    by (simp add: js_def)
  have c: "JString (js ''resize'') \<noteq> JString (js ''output'')"
    by (simp add: js_def)
  from a b c messageHandler_other_type [OF a b c] show ?thesis
    by (simp add: example_output)
qed

section \<open>Properties of \<open>server_claude_send\<close>\<close>

lemma no_output_text_nonempty: "no_output_text rv \<noteq> []"
  by (cases rv) (simp_all add: no_output_text_def js_def)

lemma js_or_buffer_nonempty: "js_or (JString b) (JString (no_output_text rv)) \<noteq> JString []"
  by (simp add: js_or_def no_output_text_nonempty)

text \<open>
  C7, as stated, fails on the text of the sentinel: with the buffer empty at the end of the
  wait, neither revision returns \<open>(no output yet)\<close>.
\<close>

theorem send_return_sentinel_counterexample:
  "serverClaudeBuffer (run Index_js example_host
     [(0, Call (JString (js ''/srv/app''))), (40, Socket 0 Open)] initial) = [] \<and>
   server_claude_send_return Index_js (JObject [(js ''command'', JString (js ''ls''))])
     (run Index_js example_host [(0, Call (JString (js ''/srv/app''))), (40, Socket 0 Open)] initial) \<noteq>
     Inr (JString (js ''(no output yet)'')) \<and>
   server_claude_send_return Part_000 (JObject [(js ''command'', JString (js ''ls''))])
     (run Part_000 example_host [(0, Call (JString (js ''/srv/app''))), (40, Socket 0 Open)] initial) \<noteq>
     Inr (JString (js ''(no output yet)''))"
  by (simp add: eval_defs server_claude_send_return_def js_or_def no_output_text_def)

text \<open>
  C7, amended. For every \<open>server_claude_send\<close> call whose wait ends with the buffer still
  empty, the text of the result is the sentinel of the revision:
  \<open>(no output yet - server Claude may still be processing)\<close> in \<open>src/index.js\<close>, and
  \<open>(no output)\<close> in the compact revision when the command is a string. In no case is
  the text of a result the empty string.
\<close>

theorem send_return_no_output:
  assumes "serverClaudeBuffer rt = []"
  shows "server_claude_send_return Index_js args rt =
           Inr (JString (js ''(no output yet - server Claude may still be processing)'')) \<and>
         (\<forall>c. get_prop args (js ''command'') = Inr (JString c) \<longrightarrow>
            server_claude_send_return Part_000 args rt = Inr (JString (js ''(no output)''))) \<and>
         server_claude_send_return rv args rt \<noteq> Inr (JString [])"
proof -
  have "server_claude_send_return rv args rt \<noteq> Inr (JString [])"
    by (cases rv)
      (auto simp: server_claude_send_return_def js_or_buffer_nonempty split: sum.splits js_value.splits)
  with assms show ?thesis
    by (simp add: server_claude_send_return_def js_or_def no_output_text_def)
qed

theorem send_return_no_output_witness:
  "serverClaudeBuffer (run Index_js example_host
     [(0, Call (JString (js ''/srv/app''))), (40, Socket 0 Open)] initial) = [] \<and>
   server_claude_send_return Index_js (JObject [(js ''command'', JString (js ''ls''))])
     (run Index_js example_host [(0, Call (JString (js ''/srv/app''))), (40, Socket 0 Open)] initial) =
     Inr (JString (js ''(no output yet - server Claude may still be processing)'')) \<and>
   get_prop (JObject [(js ''command'', JString (js ''ls''))]) (js ''command'') = Inr (JString (js ''ls'')) \<and>
   server_claude_send_return Part_000 (JObject [(js ''command'', JString (js ''ls''))])
     (run Index_js example_host [(0, Call (JString (js ''/srv/app''))), (40, Socket 0 Open)] initial) =
     Inr (JString (js ''(no output)''))"
proof -
  have e: "serverClaudeBuffer (run Index_js example_host
     [(0, Call (JString (js ''/srv/app''))), (40, Socket 0 Open)] initial) = []"
    by (simp add: example_connected)
  have g: "get_prop (JObject [(js ''command'', JString (js ''ls''))]) (js ''command'') = Inr (JString (js ''ls''))"
    by simp
  from e g send_return_no_output [OF e, of "JObject [(js ''command'', JString (js ''ls''))]" Index_js]
  show ?thesis by simp
qed

text \<open>
  C8. In \<open>server_claude_send\<close> a \<open>waitMs\<close> that is falsy (0, \<open>null\<close> and NaN among them)
  is replaced by 5000, and the wait computed is never 0: it is always a truthy value.
\<close>

theorem send_wait_default:
  assumes "get_prop args (js ''waitMs'') = Inr waitMs"
  shows "(\<not> ToBoolean waitMs \<longrightarrow> server_claude_send_wait args = Inr (JNumber (Num 5000))) \<and>
         (waitMs = JNumber (Num 0) \<or> waitMs = JNull \<or> waitMs = JNumber NaN \<longrightarrow>
            server_claude_send_wait args = Inr (JNumber (Num 5000))) \<and>
         server_claude_send_wait args \<noteq> Inr (JNumber (Num 0)) \<and>
         (\<exists>wait. server_claude_send_wait args = Inr wait \<and> ToBoolean wait)"
  using assms by (auto simp: server_claude_send_wait_def js_or_def)

theorem send_wait_default_witness:
  "get_prop (JObject [(js ''command'', JString (js ''ls'')), (js ''waitMs'', JNumber (Num 0))]) (js ''waitMs'') =
     Inr (JNumber (Num 0)) \<and>
   \<not> ToBoolean (JNumber (Num 0)) \<and>
   server_claude_send_wait (JObject [(js ''command'', JString (js ''ls'')), (js ''waitMs'', JNumber (Num 0))]) =
     Inr (JNumber (Num 5000))"
proof -
  have g: "get_prop (JObject [(js ''command'', JString (js ''ls'')), (js ''waitMs'', JNumber (Num 0))]) (js ''waitMs'') =
     Inr (JNumber (Num 0))"
    by (simp add: js_def)
  from g send_wait_default [OF g] show ?thesis by simp
qed

section \<open>Properties of connecting\<close>

subsection \<open>Settling a promise\<close>

lemma length_settle: "length (settle p v ps) = length ps"
  by (simp add: settle_def)

lemma settle_nth_other: "q \<noteq> p \<Longrightarrow> settle p v ps ! q = ps ! q"
  by (simp add: settle_def)

lemma settle_nth_settled: "ps ! q \<noteq> Pending \<Longrightarrow> settle p v ps ! q = ps ! q"
  by (cases "q = p") (simp_all add: settle_def)

lemma settle_nth_pending: "p < length ps \<Longrightarrow> ps ! p = Pending \<Longrightarrow> settle p v ps ! p = v"
  by (simp add: settle_def)

subsection \<open>Timers that fire\<close>

lemma fire_fields:
  "sockets (foldl (\<lambda>r dp. on_timeout rv (snd dp) r) rt ds) = sockets rt \<and>
   timers (foldl (\<lambda>r dp. on_timeout rv (snd dp) r) rt ds) = timers rt \<and>
   now (foldl (\<lambda>r dp. on_timeout rv (snd dp) r) rt ds) = now rt \<and>
   serverClaudeConnected (foldl (\<lambda>r dp. on_timeout rv (snd dp) r) rt ds) = serverClaudeConnected rt \<and>
   serverClaudeWs (foldl (\<lambda>r dp. on_timeout rv (snd dp) r) rt ds) = serverClaudeWs rt \<and>
   serverClaudeBuffer (foldl (\<lambda>r dp. on_timeout rv (snd dp) r) rt ds) = serverClaudeBuffer rt \<and>
   length (promises (foldl (\<lambda>r dp. on_timeout rv (snd dp) r) rt ds)) = length (promises rt)"
  by (induction ds arbitrary: rt) (simp_all add: on_timeout_def length_settle)

lemma fire_connected:
  "serverClaudeConnected rt \<Longrightarrow> foldl (\<lambda>r dp. on_timeout rv (snd dp) r) rt ds = rt"
  by (induction ds arbitrary: rt) (simp_all add: on_timeout_def)

lemma fire_nth_other:
  "\<forall>dq \<in> set ds. snd dq \<noteq> q \<Longrightarrow>
   promises (foldl (\<lambda>r dp. on_timeout rv (snd dp) r) rt ds) ! q = promises rt ! q"
  by (induction ds arbitrary: rt) (simp_all add: on_timeout_def settle_nth_other)

lemma fire_nth_settled:
  "promises rt ! q \<noteq> Pending \<Longrightarrow>
   promises (foldl (\<lambda>r dp. on_timeout rv (snd dp) r) rt ds) ! q = promises rt ! q"
  by (induction ds arbitrary: rt) (simp_all add: on_timeout_def settle_nth_settled)

lemma fire_nth_rejected:
  assumes "\<not> serverClaudeConnected rt" "p < length (promises rt)" "promises rt ! p = Pending"
    and "(d, p) \<in> set ds"
  shows "promises (foldl (\<lambda>r dp. on_timeout rv (snd dp) r) rt ds) ! p = Rejected (Error (timeout_message rv))"
  using assms
proof (induction ds arbitrary: rt)
  case Nil
  then show ?case by simp
next
  case (Cons x xs)
  show ?case
  proof (cases "snd x = p")
    case True
    with Cons.prems have "promises (on_timeout rv (snd x) rt) ! p = Rejected (Error (timeout_message rv))"
      by (simp add: on_timeout_def settle_nth_pending)
    then have "promises (foldl (\<lambda>r dp. on_timeout rv (snd dp) r) (on_timeout rv (snd x) rt) xs) ! p =
        Rejected (Error (timeout_message rv))"
      by (simp add: fire_nth_settled)
    then show ?thesis by simp
  next
    case False
    with Cons.prems have "(d, p) \<in> set xs" by auto
    moreover from False Cons.prems have "\<not> serverClaudeConnected (on_timeout rv (snd x) rt)"
      "p < length (promises (on_timeout rv (snd x) rt))" "promises (on_timeout rv (snd x) rt) ! p = Pending"
      by (simp_all add: on_timeout_def length_settle settle_nth_other)
    ultimately have "promises (foldl (\<lambda>r dp. on_timeout rv (snd dp) r) (on_timeout rv (snd x) rt) xs) ! p =
        Rejected (Error (timeout_message rv))"
      by (intro Cons.IH)
    then show ?thesis by simp
  qed
qed

subsection \<open>The clock\<close>

lemma advance_fields:
  "sockets (advance rv t rt) = sockets rt \<and>
   timers (advance rv t rt) = filter (\<lambda>dp. \<not> fst dp \<le> t) (timers rt) \<and>
   now (advance rv t rt) = max (now rt) t \<and>
   serverClaudeConnected (advance rv t rt) = serverClaudeConnected rt \<and>
   serverClaudeWs (advance rv t rt) = serverClaudeWs rt \<and>
   serverClaudeBuffer (advance rv t rt) = serverClaudeBuffer rt \<and>
   length (promises (advance rv t rt)) = length (promises rt)"
  by (simp add: advance_def fire_fields)

lemma advance_nth_early:
  assumes "\<forall>dq \<in> set (timers rt). snd dq = q \<longrightarrow> t < fst dq"
  shows "promises (advance rv t rt) ! q = promises rt ! q"
proof -
  from assms have "\<forall>dq \<in> set (filter (\<lambda>dp. fst dp \<le> t) (timers rt)). snd dq \<noteq> q" by auto
  then show ?thesis by (simp add: advance_def fire_nth_other)
qed

lemma advance_nth_settled:
  "promises rt ! q \<noteq> Pending \<Longrightarrow> promises (advance rv t rt) ! q = promises rt ! q"
  by (simp add: advance_def fire_nth_settled)

lemma advance_connected:
  "serverClaudeConnected rt \<Longrightarrow> promises (advance rv t rt) = promises rt"
  by (simp add: advance_def fire_connected)

lemma advance_nth_rejected:
  assumes "\<not> serverClaudeConnected rt" "p < length (promises rt)" "promises rt ! p = Pending"
    and "(d, p) \<in> set (timers rt)" "d \<le> t"
  shows "promises (advance rv t rt) ! p = Rejected (Error (timeout_message rv))"
proof -
  from assms have "(d, p) \<in> set (filter (\<lambda>dp. fst dp \<le> t) (timers rt))" by simp
  with assms(1-3) show ?thesis
    unfolding advance_def by (intro fire_nth_rejected) simp_all
qed


subsection \<open>One step of the loop, and a run\<close>

lemma connect_cases:
  obtains (reuse) "connectToServerClaude h pp rt = rt\<lparr>promises := promises rt @ [Resolved]\<rparr>"
  | (thrown) e where "connectToServerClaude h pp rt = rt\<lparr>promises := promises rt @ [Rejected e]\<rparr>"
  | (dial) url where "connectToServerClaude h pp rt =
      rt\<lparr>serverClaudeWs := Some (length (sockets rt)), serverClaudeBuffer := [],
         sockets := sockets rt @ [(url, length (promises rt))],
         promises := promises rt @ [Pending],
         timers := timers rt @ [(now rt + 10000, length (promises rt))]\<rparr>"
proof (cases "serverClaudeWs rt \<noteq> None \<and> serverClaudeConnected rt")
  case True
  then have "connectToServerClaude h pp rt = rt\<lparr>promises := promises rt @ [Resolved]\<rparr>"
    by (simp add: connectToServerClaude_def)
  then show ?thesis by (rule reuse)
next
  case live: False
  show ?thesis
  proof (cases "encodeURIComponent h (case pp of JUndefined \<Rightarrow> DEFAULT_PROJECT h | _ \<Rightarrow> pp)")
    case (Inl e)
    with live have "connectToServerClaude h pp rt = rt\<lparr>promises := promises rt @ [Rejected e]\<rparr>"
      by (simp add: connectToServerClaude_def)
    then show ?thesis by (rule thrown)
  next
    case (Inr path)
    show ?thesis
    proof (cases "WebSocket_new h (CLAUDE_SERVER_WS h @ js ''?path='' @ path @ js ''&mode=claude'')")
      case (Some e)
      with live Inr have "connectToServerClaude h pp rt = rt\<lparr>promises := promises rt @ [Rejected e]\<rparr>"
        by (simp add: connectToServerClaude_def)
      then show ?thesis by (rule thrown)
    next
      case None
      with live Inr have "connectToServerClaude h pp rt =
        rt\<lparr>serverClaudeWs := Some (length (sockets rt)), serverClaudeBuffer := [],
           sockets := sockets rt @ [(CLAUDE_SERVER_WS h @ js ''?path='' @ path @ js ''&mode=claude'', length (promises rt))],
           promises := promises rt @ [Pending],
           timers := timers rt @ [(now rt + 10000, length (promises rt))]\<rparr>"
        by (auto simp: connectToServerClaude_def)
      then show ?thesis by (rule dial)
    qed
  qed
qed

lemma connect_consistent: "consistent rt \<Longrightarrow> consistent (connectToServerClaude h pp rt)"
  by (cases h pp rt rule: connect_cases) (auto simp: consistent_def less_Suc_eq)

lemma connect_connected:
  "serverClaudeConnected (connectToServerClaude h pp rt) = serverClaudeConnected rt"
  by (cases h pp rt rule: connect_cases) simp_all

lemma connect_nth: "q < length (promises rt) \<Longrightarrow>
  promises (connectToServerClaude h pp rt) ! q = promises rt ! q \<and>
  q < length (promises (connectToServerClaude h pp rt))"
  by (cases h pp rt rule: connect_cases) (simp_all add: nth_append)

lemma connect_pending_attempt:
  assumes "pending_attempt k p due rt"
  shows "pending_attempt k p due (connectToServerClaude h pp rt)"
proof (cases h pp rt rule: connect_cases)
  case reuse
  with assms show ?thesis
    by (auto simp: pending_attempt_def consistent_def nth_append less_Suc_eq)
next
  case (thrown e)
  with assms show ?thesis
    by (auto simp: pending_attempt_def consistent_def nth_append less_Suc_eq)
next
  case (dial url)
  with assms show ?thesis
    by (auto simp: pending_attempt_def consistent_def nth_append less_Suc_eq)
qed

lemma socket_event_cases:
  obtains (none) "socket_event h k ev rt = rt"
  | (opened) "k < length (sockets rt)" "ev = Open" "socket_event h k ev rt = on_open (snd (sockets rt ! k)) rt"
  | (message) b where "socket_event h k ev rt = rt\<lparr>serverClaudeBuffer := b\<rparr>"
  | (failed) err where "k < length (sockets rt)" "ev = Failure err"
      "socket_event h k ev rt = on_error (snd (sockets rt ! k)) err rt"
  | (closed) "socket_event h k ev rt = on_close rt"
proof (cases "k < length (sockets rt)")
  case False
  then have "socket_event h k ev rt = rt" by (simp add: socket_event_def)
  then show ?thesis by (rule none)
next
  case True
  show ?thesis
  proof (cases ev)
    case Open
    with True show ?thesis by (intro opened) (simp_all add: socket_event_def)
  next
    case (Message data)
    with True have "socket_event h k ev rt = rt\<lparr>serverClaudeBuffer :=
        serverClaudeBuffer (case messageHandler h data rt of Inr r \<Rightarrow> r | Inl e \<Rightarrow> rt)\<rparr>"
      by (simp add: socket_event_def messageHandler_def split: sum.splits)
    then show ?thesis by (rule message)
  next
    case (Failure err)
    with True show ?thesis by (intro failed) (simp_all add: socket_event_def)
  next
    case Close
    with True have "socket_event h k ev rt = on_close rt" by (simp add: socket_event_def)
    then show ?thesis by (rule closed)
  qed
qed

lemma socket_event_consistent: "consistent rt \<Longrightarrow> consistent (socket_event h k ev rt)"
  by (cases h k ev rt rule: socket_event_cases)
    (auto simp: consistent_def on_open_def on_error_def on_close_def length_settle)

lemma socket_event_nth_settled:
  "promises rt ! q \<noteq> Pending \<Longrightarrow> promises (socket_event h k ev rt) ! q = promises rt ! q"
  by (cases h k ev rt rule: socket_event_cases)
    (auto simp: on_open_def on_error_def on_close_def settle_nth_settled)

lemma socket_event_length: "length (promises (socket_event h k ev rt)) = length (promises rt)"
  by (cases h k ev rt rule: socket_event_cases)
    (auto simp: on_open_def on_error_def on_close_def length_settle)

lemma socket_event_pending_attempt:
  assumes "pending_attempt k p due rt"
    and "\<not> (j = k \<and> (ev = Open \<or> (\<exists>e. ev = Failure e)))"
  shows "pending_attempt k p due (socket_event h j ev rt)"
proof (cases h j ev rt rule: socket_event_cases)
  case none
  with assms show ?thesis by simp
next
  case opened
  with assms have "snd (sockets rt ! j) \<noteq> p" by (auto simp: pending_attempt_def)
  with opened assms show ?thesis
    by (auto simp: pending_attempt_def consistent_def on_open_def length_settle settle_nth_other)
next
  case (message b)
  with assms show ?thesis by (auto simp: pending_attempt_def consistent_def)
next
  case (failed err)
  with assms have "snd (sockets rt ! j) \<noteq> p" by (auto simp: pending_attempt_def)
  with failed assms show ?thesis
    by (auto simp: pending_attempt_def consistent_def on_error_def length_settle settle_nth_other)
next
  case closed
  with assms show ?thesis by (auto simp: pending_attempt_def consistent_def on_close_def)
qed

lemma advance_consistent: "consistent rt \<Longrightarrow> consistent (advance rv t rt)"
  by (auto simp: consistent_def advance_fields)

lemma advance_pending_attempt:
  assumes "pending_attempt k p due rt" "t < due"
  shows "pending_attempt k p due (advance rv t rt)"
proof -
  from assms have "\<forall>dq \<in> set (timers rt). snd dq = p \<longrightarrow> t < fst dq"
    by (auto simp: pending_attempt_def)
  then have "promises (advance rv t rt) ! p = promises rt ! p"
    by (rule advance_nth_early)
  with assms show ?thesis
    by (auto simp: pending_attempt_def consistent_def advance_fields)
qed

lemma step_pending_attempt:
  assumes "pending_attempt k p due rt" "fst ta < due"
    and "snd ta \<noteq> Socket k Open" "\<forall>e. snd ta \<noteq> Socket k (Failure e)"
  shows "pending_attempt k p due (step rv h rt ta)"
proof -
  from assms(1,2) have a: "pending_attempt k p due (advance rv (fst ta) rt)"
    by (rule advance_pending_attempt)
  show ?thesis
  proof (cases "snd ta")
    case (Call pp)
    with a show ?thesis by (simp add: step_def connect_pending_attempt)
  next
    case (Socket j ev)
    with assms(3,4) have "\<not> (j = k \<and> (ev = Open \<or> (\<exists>e. ev = Failure e)))" by auto
    with a have "pending_attempt k p due (socket_event h j ev (advance rv (fst ta) rt))"
      by (rule socket_event_pending_attempt)
    with Socket show ?thesis by (simp add: step_def)
  qed
qed

lemma run_pending_attempt:
  assumes "pending_attempt k p due rt"
    and "\<forall>ta \<in> set tas. fst ta < due \<and> snd ta \<noteq> Socket k Open \<and> (\<forall>e. snd ta \<noteq> Socket k (Failure e))"
  shows "pending_attempt k p due (run rv h tas rt)"
  using assms
proof (induction tas arbitrary: rt)
  case Nil
  then show ?case by (simp add: run_def)
next
  case (Cons ta tas)
  then have "pending_attempt k p due (step rv h rt ta)"
    by (intro step_pending_attempt) simp_all
  with Cons have "pending_attempt k p due (run rv h tas (step rv h rt ta))"
    by (intro Cons.IH) simp_all
  then show ?case by (simp add: run_def)
qed

lemma step_nth_settled:
  assumes "q < length (promises rt)" "promises rt ! q \<noteq> Pending"
  shows "promises (step rv h rt ta) ! q = promises rt ! q \<and> q < length (promises (step rv h rt ta))"
proof -
  from assms have a: "promises (advance rv (fst ta) rt) ! q = promises rt ! q"
    "q < length (promises (advance rv (fst ta) rt))"
    by (simp_all add: advance_nth_settled advance_fields)
  show ?thesis
  proof (cases "snd ta")
    case (Call pp)
    with a show ?thesis by (simp add: step_def connect_nth)
  next
    case (Socket j ev)
    with a assms show ?thesis
      by (simp add: step_def socket_event_nth_settled socket_event_length)
  qed
qed

lemma run_nth_settled:
  "q < length (promises rt) \<Longrightarrow> promises rt ! q \<noteq> Pending \<Longrightarrow>
   promises (run rv h tas rt) ! q = promises rt ! q \<and> q < length (promises (run rv h tas rt))"
proof (induction tas arbitrary: rt)
  case Nil
  then show ?case by (simp add: run_def)
next
  case (Cons ta tas)
  from Cons.prems have s: "promises (step rv h rt ta) ! q = promises rt ! q"
    "q < length (promises (step rv h rt ta))"
    using step_nth_settled by blast+
  with Cons.prems have "promises (run rv h tas (step rv h rt ta)) ! q = promises (step rv h rt ta) ! q \<and>
      q < length (promises (run rv h tas (step rv h rt ta)))"
    by (intro Cons.IH) simp_all
  with s show ?case by (simp add: run_def)
qed

lemma step_not_connected:
  assumes "\<not> serverClaudeConnected rt" "\<forall>j. snd ta \<noteq> Socket j Open"
  shows "\<not> serverClaudeConnected (step rv h rt ta)"
proof (cases "snd ta")
  case (Call pp)
  with assms show ?thesis by (simp add: step_def connect_connected advance_fields)
next
  case (Socket j ev)
  with assms have "ev \<noteq> Open" by auto
  with assms(1) have "\<not> serverClaudeConnected (socket_event h j ev (advance rv (fst ta) rt))"
    by (cases h j ev "advance rv (fst ta) rt" rule: socket_event_cases)
      (auto simp: advance_fields on_error_def on_close_def)
  with Socket show ?thesis by (simp add: step_def)
qed

lemma run_not_connected:
  "\<not> serverClaudeConnected rt \<Longrightarrow> \<forall>ta \<in> set tas. \<forall>j. snd ta \<noteq> Socket j Open \<Longrightarrow>
   \<not> serverClaudeConnected (run rv h tas rt)"
proof (induction tas arbitrary: rt)
  case Nil
  then show ?case by (simp add: run_def)
next
  case (Cons ta tas)
  then have "\<not> serverClaudeConnected (step rv h rt ta)"
    by (intro step_not_connected) simp_all
  with Cons have "\<not> serverClaudeConnected (run rv h tas (step rv h rt ta))"
    by (intro Cons.IH) simp_all
  then show ?case by (simp add: run_def)
qed

lemma consistent_initial: "consistent initial"
  by (simp add: consistent_def initial_def)

lemma step_consistent: "consistent rt \<Longrightarrow> consistent (step rv h rt ta)"
  by (cases "snd ta")
    (simp_all add: step_def connect_consistent socket_event_consistent advance_consistent)

lemma run_consistent: "consistent rt \<Longrightarrow> consistent (run rv h tas rt)"
  by (induction tas arbitrary: rt) (simp_all add: run_def step_consistent)

lemma connect_dial:
  assumes "serverClaudeWs rt = None \<or> \<not> serverClaudeConnected rt"
    and "encodeURIComponent h (case projectPath of JUndefined \<Rightarrow> DEFAULT_PROJECT h | _ \<Rightarrow> projectPath) = Inr path"
    and "WebSocket_new h (CLAUDE_SERVER_WS h @ js ''?path='' @ path @ js ''&mode=claude'') = None"
  shows "connectToServerClaude h projectPath rt =
     rt\<lparr>serverClaudeWs := Some (length (sockets rt)), serverClaudeBuffer := [],
        sockets := sockets rt @
          [(CLAUDE_SERVER_WS h @ js ''?path='' @ path @ js ''&mode=claude'', length (promises rt))],
        promises := promises rt @ [Pending],
        timers := timers rt @ [(now rt + 10000, length (promises rt))]\<rparr>"
  using assms by (auto simp: connectToServerClaude_def)

lemma connect_dial_pending_attempt:
  assumes "consistent rt"
    and "serverClaudeWs rt = None \<or> \<not> serverClaudeConnected rt"
    and "encodeURIComponent h (case projectPath of JUndefined \<Rightarrow> DEFAULT_PROJECT h | _ \<Rightarrow> projectPath) = Inr path"
    and "WebSocket_new h (CLAUDE_SERVER_WS h @ js ''?path='' @ path @ js ''&mode=claude'') = None"
  shows "pending_attempt (length (sockets rt)) (length (promises rt)) (now rt + 10000)
           (connectToServerClaude h projectPath rt)"
proof -
  from assms(1) have old: "\<forall>j < length (sockets rt). snd (sockets rt ! j) < length (promises rt)"
    "\<forall>dq \<in> set (timers rt). snd dq < length (promises rt)"
    by (auto simp: consistent_def)
  from old show ?thesis
    unfolding connect_dial [OF assms(2-4)] pending_attempt_def consistent_def
    by (auto simp: nth_append less_Suc_eq all_set_conv_all_nth)
qed

subsection \<open>Reuse of the live connection\<close>







subsection \<open>The buffer at a dial\<close>

text \<open>
  C10. Every call of \<open>connectToServerClaude\<close> that constructs a socket (it does so only
  when there is no handle or the connected flag is unset, and then whenever the host
  accepts the path and the address) leaves the buffer empty, with the promise still
  pending; so does a \<open>server_claude_connect\<close> tool call that dials. A call that finds
  the connection live leaves the buffer as it was.
\<close>

theorem connect_resets_buffer:
  "(sockets (connectToServerClaude h projectPath rt) \<noteq> sockets rt \<longrightarrow>
      serverClaudeBuffer (connectToServerClaude h projectPath rt) = [] \<and>
      last (promises (connectToServerClaude h projectPath rt)) = Pending \<and>
      (serverClaudeWs rt = None \<or> \<not> serverClaudeConnected rt)) \<and>
   (sockets (server_claude_connect h args rt) \<noteq> sockets rt \<longrightarrow>
      serverClaudeBuffer (server_claude_connect h args rt) = []) \<and>
   ((serverClaudeWs rt = None \<or> \<not> serverClaudeConnected rt) \<and>
    encodeURIComponent h (case projectPath of JUndefined \<Rightarrow> DEFAULT_PROJECT h | _ \<Rightarrow> projectPath) = Inr path \<and>
    WebSocket_new h (CLAUDE_SERVER_WS h @ js ''?path='' @ path @ js ''&mode=claude'') = None \<longrightarrow>
      sockets (connectToServerClaude h projectPath rt) \<noteq> sockets rt) \<and>
   (serverClaudeWs rt \<noteq> None \<and> serverClaudeConnected rt \<longrightarrow>
      serverClaudeBuffer (connectToServerClaude h projectPath rt) = serverClaudeBuffer rt \<and>
      sockets (connectToServerClaude h projectPath rt) = sockets rt)"
proof -
  have emptied: "serverClaudeBuffer (connectToServerClaude h pp rt) = [] \<and>
      last (promises (connectToServerClaude h pp rt)) = Pending"
    if "sockets (connectToServerClaude h pp rt) \<noteq> sockets rt" for pp
    using that by (cases h pp rt rule: connect_cases) simp_all
  have not_live: "serverClaudeWs rt = None \<or> \<not> serverClaudeConnected rt"
    if "sockets (connectToServerClaude h pp rt) \<noteq> sockets rt" for pp
    using that by (auto simp: connectToServerClaude_def)
  from emptied not_live
  have dial: "serverClaudeBuffer (connectToServerClaude h pp rt) = [] \<and>
      last (promises (connectToServerClaude h pp rt)) = Pending \<and>
      (serverClaudeWs rt = None \<or> \<not> serverClaudeConnected rt)"
    if "sockets (connectToServerClaude h pp rt) \<noteq> sockets rt" for pp
    using that by blast
  have made: "sockets (connectToServerClaude h projectPath rt) \<noteq> sockets rt"
    if "serverClaudeWs rt = None \<or> \<not> serverClaudeConnected rt"
      "encodeURIComponent h (case projectPath of JUndefined \<Rightarrow> DEFAULT_PROJECT h | _ \<Rightarrow> projectPath) = Inr path"
      "WebSocket_new h (CLAUDE_SERVER_WS h @ js ''?path='' @ path @ js ''&mode=claude'') = None"
    unfolding connect_dial [OF that] by simp
  have reuse: "serverClaudeBuffer (connectToServerClaude h projectPath rt) = serverClaudeBuffer rt \<and>
      sockets (connectToServerClaude h projectPath rt) = sockets rt"
    if "serverClaudeWs rt \<noteq> None \<and> serverClaudeConnected rt"
    using that by (simp add: connectToServerClaude_def)
  from dial [of projectPath] dial [of "js_or (get_prop_opt args (js ''project'')) (DEFAULT_PROJECT h)"]
    made reuse
  show ?thesis unfolding server_claude_connect_def by blast
qed

theorem connect_resets_buffer_witness:
  \<open>serverClaudeBuffer (run Index_js example_host
      [(0, Call (JString (js ''/srv/app''))), (40, Socket 0 Open),
       (50, Socket 0 (Message (js ''{"type":"output","data":"ok"}''))), (60, Socket 0 Close)] initial) = js ''ok'' \<and>
   serverClaudeWs (run Index_js example_host
      [(0, Call (JString (js ''/srv/app''))), (40, Socket 0 Open),
       (50, Socket 0 (Message (js ''{"type":"output","data":"ok"}''))), (60, Socket 0 Close)] initial) = None \<and>
   sockets (connectToServerClaude example_host (JString (js ''/srv/other'')) (run Index_js example_host
      [(0, Call (JString (js ''/srv/app''))), (40, Socket 0 Open),
       (50, Socket 0 (Message (js ''{"type":"output","data":"ok"}''))), (60, Socket 0 Close)] initial)) \<noteq>
     sockets (run Index_js example_host
      [(0, Call (JString (js ''/srv/app''))), (40, Socket 0 Open),
       (50, Socket 0 (Message (js ''{"type":"output","data":"ok"}''))), (60, Socket 0 Close)] initial) \<and>
   serverClaudeBuffer (connectToServerClaude example_host (JString (js ''/srv/other'')) (run Index_js example_host
      [(0, Call (JString (js ''/srv/app''))), (40, Socket 0 Open),
       (50, Socket 0 (Message (js ''{"type":"output","data":"ok"}''))), (60, Socket 0 Close)] initial)) = [] \<and>
   serverClaudeBuffer (server_claude_connect example_host (JObject [(js ''project'', JString (js ''/srv/other''))])
     (run Index_js example_host
      [(0, Call (JString (js ''/srv/app''))), (40, Socket 0 Open),
       (50, Socket 0 (Message (js ''{"type":"output","data":"ok"}''))), (60, Socket 0 Close)] initial)) = [] \<and>
   serverClaudeConnected (run Index_js example_host
      [(0, Call (JString (js ''/srv/app''))), (40, Socket 0 Open),
       (50, Socket 0 (Message (js ''{"type":"output","data":"ok"}'')))] initial) \<and>
   serverClaudeBuffer (connectToServerClaude example_host (JString (js ''/srv/other'')) (run Index_js example_host
      [(0, Call (JString (js ''/srv/app''))), (40, Socket 0 Open),
       (50, Socket 0 (Message (js ''{"type":"output","data":"ok"}'')))] initial)) = js ''ok''\<close>
proof -
  define closed where \<open>closed = run Index_js example_host
      [(0, Call (JString (js ''/srv/app''))), (40, Socket 0 Open),
       (50, Socket 0 (Message (js ''{"type":"output","data":"ok"}''))), (60, Socket 0 Close)] initial\<close>
  define live where \<open>live = run Index_js example_host
      [(0, Call (JString (js ''/srv/app''))), (40, Socket 0 Open),
       (50, Socket 0 (Message (js ''{"type":"output","data":"ok"}'')))] initial\<close>
  have c: "serverClaudeBuffer closed = js ''ok''" "serverClaudeWs closed = None"
    by (simp_all add: closed_def eval_defs clean_defs)
  have l: "serverClaudeBuffer live = js ''ok''" "serverClaudeWs live \<noteq> None" "serverClaudeConnected live"
    by (simp_all add: live_def eval_defs clean_defs)
  have e: "encodeURIComponent example_host
      (case JString (js ''/srv/other'') of JUndefined \<Rightarrow> DEFAULT_PROJECT example_host | _ \<Rightarrow> JString (js ''/srv/other'')) =
      Inr (js ''%2Fsrv%2Fother'')"
    by (simp add: example_host_def js_def)
  have w: "WebSocket_new example_host
      (CLAUDE_SERVER_WS example_host @ js ''?path='' @ js ''%2Fsrv%2Fother'' @ js ''&mode=claude'') = None"
    by (simp add: example_host_def)
  have a: "server_claude_connect example_host (JObject [(js ''project'', JString (js ''/srv/other''))]) closed =
      connectToServerClaude example_host (JString (js ''/srv/other'')) closed"
    by (simp add: server_claude_connect_def js_or_def js_def)
  note t = connect_resets_buffer [of example_host "JString (js ''/srv/other'')" closed
      "JObject [(js ''project'', JString (js ''/srv/other''))]" "js ''%2Fsrv%2Fother''"]
  from c e w t
  have d: "sockets (connectToServerClaude example_host (JString (js ''/srv/other'')) closed) \<noteq> sockets closed"
    "serverClaudeBuffer (connectToServerClaude example_host (JString (js ''/srv/other'')) closed) = []"
    by blast+
  from d(1) a t
  have s: "serverClaudeBuffer (server_claude_connect example_host
      (JObject [(js ''project'', JString (js ''/srv/other''))]) closed) = []"
    by simp
  from l connect_resets_buffer [of example_host "JString (js ''/srv/other'')" live JNull "js ''%2Fsrv%2Fother''"]
  have r: "serverClaudeBuffer (connectToServerClaude example_host (JString (js ''/srv/other'')) live) = js ''ok''"
    by simp
  from c d s l r show ?thesis
    unfolding closed_def live_def by blast
qed

subsection \<open>The connect timeout\<close>

text \<open>
  C6: the timeout does not fire for every attempt. A caller makes one call at a time. The
  first attempt times out; the second, at 10001 ms, dials socket 1, which fails and closes;
  then socket 0 opens after all and sets the connected flag, with no handle left. The third
  call, at 10300 ms, dials socket 2, and no event follows. When its timer fires at 20300 ms
  the flag is still set, the timer rejects nothing, and promise 2 stays pending with no
  timer left: it never settles.
\<close>

theorem connect_timeout_hang:
  "promises (run Index_js example_host
      [(0, Call (JString (js ''/srv/app''))), (10001, Call (JString (js ''/srv/other''))),
       (10100, Socket 1 (Failure (Error (js ''refused'')))), (10101, Socket 1 Close),
       (10200, Socket 0 Open), (10300, Call (JString (js ''/srv/app'')))] initial) =
     [Rejected (Error (js ''Connection timeout'')), Rejected (Error (js ''refused'')), Pending] \<and>
   now (run Index_js example_host
      [(0, Call (JString (js ''/srv/app''))), (10001, Call (JString (js ''/srv/other''))),
       (10100, Socket 1 (Failure (Error (js ''refused'')))), (10101, Socket 1 Close),
       (10200, Socket 0 Open), (10300, Call (JString (js ''/srv/app'')))] initial) = 10300 \<and>
   sockets (run Index_js example_host
      [(0, Call (JString (js ''/srv/app''))), (10001, Call (JString (js ''/srv/other''))),
       (10100, Socket 1 (Failure (Error (js ''refused'')))), (10101, Socket 1 Close),
       (10200, Socket 0 Open), (10300, Call (JString (js ''/srv/app'')))] initial) ! 2 =
     (js ''ws://161.35.229.220:5400?path=%2Fsrv%2Fapp&mode=claude'', 2) \<and>
   timers (run Index_js example_host
      [(0, Call (JString (js ''/srv/app''))), (10001, Call (JString (js ''/srv/other''))),
       (10100, Socket 1 (Failure (Error (js ''refused'')))), (10101, Socket 1 Close),
       (10200, Socket 0 Open), (10300, Call (JString (js ''/srv/app'')))] initial) =
     [(20001, 1), (20300, 2)] \<and>
   promises (advance Index_js 20300 (run Index_js example_host
      [(0, Call (JString (js ''/srv/app''))), (10001, Call (JString (js ''/srv/other''))),
       (10100, Socket 1 (Failure (Error (js ''refused'')))), (10101, Socket 1 Close),
       (10200, Socket 0 Open), (10300, Call (JString (js ''/srv/app'')))] initial)) ! 2 = Pending \<and>
   timers (advance Index_js 20300 (run Index_js example_host
      [(0, Call (JString (js ''/srv/app''))), (10001, Call (JString (js ''/srv/other''))),
       (10100, Socket 1 (Failure (Error (js ''refused'')))), (10101, Socket 1 Close),
       (10200, Socket 0 Open), (10300, Call (JString (js ''/srv/app'')))] initial)) = []"
  by (simp add: eval_defs)

text \<open>
  Where the timer does work. For an attempt that dials, as long as neither \<open>open\<close> nor
  \<open>error\<close> has occurred on its socket within 10000 ms of the dial, the promise is
  pending; when the timer fires at 10000 ms it rejects the promise with the timeout error
  if the connected flag is unset at that moment, which is so whenever the flag was unset
  at the dial and no socket has opened since. If \<open>open\<close> occurs on its socket before the
  deadline, the promise resolves, and neither the timer nor anything later changes that.
\<close>

lemma connect_timeout:
  assumes "consistent rt"
    and "serverClaudeWs rt = None \<or> \<not> serverClaudeConnected rt"
    and "encodeURIComponent h (case projectPath of JUndefined \<Rightarrow> DEFAULT_PROJECT h | _ \<Rightarrow> projectPath) = Inr path"
    and "WebSocket_new h (CLAUDE_SERVER_WS h @ js ''?path='' @ path @ js ''&mode=claude'') = None"
    and "\<forall>ta \<in> set tas. fst ta < now rt + 10000 \<and> snd ta \<noteq> Socket (length (sockets rt)) Open \<and>
           (\<forall>e. snd ta \<noteq> Socket (length (sockets rt)) (Failure e))"
  shows "promises (run rv h tas (connectToServerClaude h projectPath rt)) ! length (promises rt) = Pending \<and>
    (\<forall>t < now rt + 10000.
       promises (advance rv t (run rv h tas (connectToServerClaude h projectPath rt))) !
         length (promises rt) = Pending) \<and>
    (\<not> serverClaudeConnected (run rv h tas (connectToServerClaude h projectPath rt)) \<longrightarrow>
       promises (advance rv (now rt + 10000) (run rv h tas (connectToServerClaude h projectPath rt))) !
         length (promises rt) = Rejected (Error (timeout_message rv))) \<and>
    (\<not> serverClaudeConnected rt \<and> (\<forall>ta \<in> set tas. \<forall>j. snd ta \<noteq> Socket j Open) \<longrightarrow>
       \<not> serverClaudeConnected (run rv h tas (connectToServerClaude h projectPath rt))) \<and>
    (\<forall>t later T. t < now rt + 10000 \<longrightarrow>
       promises (advance rv T (run rv h later
         (step rv h (run rv h tas (connectToServerClaude h projectPath rt)) (t, Socket (length (sockets rt)) Open)))) !
         length (promises rt) = Resolved)"
proof -
  define k where "k = length (sockets rt)"
  define p where "p = length (promises rt)"
  define due where "due = now rt + 10000"
  define rt1 where "rt1 = run rv h tas (connectToServerClaude h projectPath rt)"
  have "pending_attempt k p due (connectToServerClaude h projectPath rt)"
    unfolding k_def p_def due_def using assms(1-4) by (rule connect_dial_pending_attempt)
  moreover from assms(5) have "\<forall>ta \<in> set tas. fst ta < due \<and> snd ta \<noteq> Socket k Open \<and>
      (\<forall>e. snd ta \<noteq> Socket k (Failure e))"
    by (simp add: k_def due_def)
  ultimately have att: "pending_attempt k p due rt1"
    unfolding rt1_def by (rule run_pending_attempt)
  then have pending: "promises rt1 ! p = Pending" and p: "p < length (promises rt1)"
    and timer: "(due, p) \<in> set (timers rt1)"
    by (simp_all add: pending_attempt_def)
  have early: "promises (advance rv t rt1) ! p = Pending" if "t < due" for t
    using advance_pending_attempt [OF att that] by (simp add: pending_attempt_def)
  have rejected: "promises (advance rv due rt1) ! p = Rejected (Error (timeout_message rv))"
    if "\<not> serverClaudeConnected rt1"
    using that p pending timer by (rule advance_nth_rejected) simp
  have flag: "\<not> serverClaudeConnected rt1"
    if "\<not> serverClaudeConnected rt" "\<forall>ta \<in> set tas. \<forall>j. snd ta \<noteq> Socket j Open"
    unfolding rt1_def using that by (intro run_not_connected) (simp_all add: connect_connected)
  have resolved: "promises (advance rv T (run rv h later (step rv h rt1 (t, Socket k Open)))) ! p = Resolved"
    if "t < due" for t later T
  proof -
    from att that have a: "pending_attempt k p due (advance rv t rt1)"
      by (rule advance_pending_attempt)
    then have "promises (socket_event h k Open (advance rv t rt1)) ! p = Resolved"
      "p < length (promises (socket_event h k Open (advance rv t rt1)))"
      by (simp_all add: pending_attempt_def socket_event_def on_open_def settle_nth_pending length_settle)
    then have s: "promises (step rv h rt1 (t, Socket k Open)) ! p = Resolved"
      "p < length (promises (step rv h rt1 (t, Socket k Open)))"
      by (simp_all add: step_def)
    then have "promises (run rv h later (step rv h rt1 (t, Socket k Open))) ! p = Resolved"
      using run_nth_settled [of p "step rv h rt1 (t, Socket k Open)" rv h later] by simp
    then show ?thesis by (simp add: advance_nth_settled)
  qed
  from pending early rejected flag resolved show ?thesis
    unfolding k_def p_def due_def rt1_def by blast
qed

lemma connect_timeout_example:
  "consistent initial \<and> serverClaudeWs initial = None \<and>
   encodeURIComponent example_host (JString (js ''/srv/app'')) = Inr (js ''%2Fsrv%2Fapp'') \<and>
   promises (run Index_js example_host [(4000, Call (JString (js ''/srv/other'')))]
     (connectToServerClaude example_host (JString (js ''/srv/app'')) initial)) ! 0 = Pending \<and>
   promises (advance Index_js 10000 (run Index_js example_host [(4000, Call (JString (js ''/srv/other'')))]
     (connectToServerClaude example_host (JString (js ''/srv/app'')) initial))) ! 0 =
     Rejected (Error (js ''Connection timeout'')) \<and>
   promises (advance Index_js 60000 (run Index_js example_host [(7000, Socket 0 Close)]
     (step Index_js example_host
       (run Index_js example_host [(4000, Call (JString (js ''/srv/other'')))]
         (connectToServerClaude example_host (JString (js ''/srv/app'')) initial))
       (6000, Socket 0 Open)))) ! 0 = Resolved"
proof -
  have h2: "serverClaudeWs initial = None \<or> \<not> serverClaudeConnected initial"
    by (simp add: initial_def)
  have h3: "encodeURIComponent example_host
      (case JString (js ''/srv/app'') of JUndefined \<Rightarrow> DEFAULT_PROJECT example_host | _ \<Rightarrow> JString (js ''/srv/app'')) =
      Inr (js ''%2Fsrv%2Fapp'')"
    by (simp add: example_host_def)
  have h4: "WebSocket_new example_host
      (CLAUDE_SERVER_WS example_host @ js ''?path='' @ js ''%2Fsrv%2Fapp'' @ js ''&mode=claude'') = None"
    by (simp add: example_host_def)
  have h5: "\<forall>ta \<in> set [(4000, Call (JString (js ''/srv/other'')))].
      fst ta < now initial + 10000 \<and> snd ta \<noteq> Socket (length (sockets initial)) Open \<and>
      (\<forall>e. snd ta \<noteq> Socket (length (sockets initial)) (Failure e))"
    by (simp add: initial_def)
  have flag: "\<not> serverClaudeConnected (run Index_js example_host [(4000, Call (JString (js ''/srv/other'')))]
     (connectToServerClaude example_host (JString (js ''/srv/app'')) initial))"
    by (simp add: eval_defs)
  have i: "length (promises initial) = 0" "length (sockets initial) = 0" "now initial + 10000 = 10000"
    by (simp_all add: initial_def)
  note t = connect_timeout [OF consistent_initial h2 h3 h4 h5, of Index_js, unfolded i]
  from t have w1: "promises (run Index_js example_host [(4000, Call (JString (js ''/srv/other'')))]
     (connectToServerClaude example_host (JString (js ''/srv/app'')) initial)) ! 0 = Pending"
    by blast
  from t flag have w2: "promises (advance Index_js 10000 (run Index_js example_host [(4000, Call (JString (js ''/srv/other'')))]
     (connectToServerClaude example_host (JString (js ''/srv/app'')) initial))) ! 0 =
     Rejected (Error (timeout_message Index_js))"
    by blast
  from t have "\<forall>t later T. t < (10000::nat) \<longrightarrow>
       promises (advance Index_js T (run Index_js example_host later
         (step Index_js example_host (run Index_js example_host [(4000, Call (JString (js ''/srv/other'')))]
           (connectToServerClaude example_host (JString (js ''/srv/app'')) initial)) (t, Socket 0 Open)))) ! 0 = Resolved"
    by blast
  then have w3: "promises (advance Index_js 60000 (run Index_js example_host [(7000, Socket 0 Close)]
     (step Index_js example_host
       (run Index_js example_host [(4000, Call (JString (js ''/srv/other'')))]
         (connectToServerClaude example_host (JString (js ''/srv/app'')) initial))
       (6000, Socket 0 Open)))) ! 0 = Resolved"
    by simp
  have e: "encodeURIComponent example_host (JString (js ''/srv/app'')) = Inr (js ''%2Fsrv%2Fapp'')"
    by (simp add: example_host_def)
  from consistent_initial e w1 w2 w3 show ?thesis
    by (simp add: initial_def timeout_message_def)
qed

end
